theory Spec2Isabelle
  imports Main
begin

section \<open>Values a guarded action can produce\<close>

text \<open>
  The library is one TypeScript module, \<^verbatim>\<open>src/lib/onceForm.ts\<close>. A wrapped action either
  returns a value (a payload or the \<^verbatim>\<open>ActionFailure\<close> built by \<^verbatim>\<open>fail\<close>) or throws
  (the \<^verbatim>\<open>Redirect\<close> built by \<^verbatim>\<open>redirect\<close>, or any other error). A settled promise is
  therefore fulfilled with a value or rejected with a thrown object.
\<close>

type_synonym token = string

datatype val = Data string | ActionFailure nat "(string \<times> string) list"

datatype exn = Redirect nat string | Error string

datatype settled = Fulfilled val | Rejected exn

definition fail :: "nat \<Rightarrow> (string \<times> string) list \<Rightarrow> val" where
  "fail status data = ActionFailure status data"

definition redirect :: "nat \<Rightarrow> string \<Rightarrow> exn" where
  "redirect status location = Redirect status location"

text \<open>\<^verbatim>\<open>kitRedirect(path)\<close> throws \<^verbatim>\<open>redirect(303, path)\<close>: inside an async handler the
  handler's promise is rejected with that object.\<close>

definition kitRedirect :: "string \<Rightarrow> settled" where
  "kitRedirect p = Rejected (redirect 303 p)"

definition COOKIE :: string where
  "COOKIE = ''form_once''"

section \<open>The cookie interface of a request event\<close>

record cookie_opts =
  path :: string
  httpOnly :: bool
  maxAge :: "nat option"

type_synonym cookie_op = "string \<times> string \<times> cookie_opts"

text \<open>
  \<^verbatim>\<open>event.cookies\<close> belongs to SvelteKit, not to this module. What the module uses of it
  is \<^verbatim>\<open>get\<close> and \<^verbatim>\<open>set\<close>. The model keeps the request's cookies (\<open>jar\<close>), the writes
  made on the response in the order they were made (\<open>sent\<close>), and the one thing about
  \<^verbatim>\<open>set\<close> that the module cannot see: whether the call returns or throws for a given
  write (\<open>throws\<close>; \<open>None\<close> when it returns).
\<close>

record cookies =
  jar :: "(string \<times> string) list"
  sent :: "cookie_op list"
  throws :: "cookie_op \<Rightarrow> exn option"

definition cookies_get :: "cookies \<Rightarrow> string \<Rightarrow> string option" where
  "cookies_get c n = map_of (jar c) n"

definition cookies_set :: "cookies \<Rightarrow> cookie_op \<Rightarrow> exn + cookies" where
  "cookies_set c w =
     (case throws c w of
        Some e \<Rightarrow> Inl e
      | None \<Rightarrow> Inr (c\<lparr>sent := sent c @ [w]\<rparr>))"

text \<open>\<^verbatim>\<open>!token\<close>: the cookie is absent (\<^verbatim>\<open>undefined\<close>) or the empty string.\<close>

definition falsy :: "string option \<Rightarrow> bool" where
  "falsy t = (case t of None \<Rightarrow> True | Some v \<Rightarrow> v = [])"

section \<open>Handlers\<close>

text \<open>
  A handler is a function of the event that should return a promise. What the module can
  observe of its run is the cookie writes it issues through \<^verbatim>\<open>event.cookies.set\<close>, its
  own calls of guarded actions, the points where it suspends, and how it ends.
  \<open>SetCookie w k\<^sub>1 k\<^sub>2\<close> issues the write \<open>w\<close> and goes on as \<open>k\<^sub>1\<close> when \<^verbatim>\<open>set\<close> returns and
  as \<open>k\<^sub>2\<close> when it throws. \<open>Guarded ev h k\<close> calls the guarded action \<^verbatim>\<open>onceAction(h)\<close>
  on an event \<open>ev\<close> of that call's own (with any token, the handler's own included) and
  goes on as \<open>k\<close> without waiting for it. \<open>Done r\<close> settles the
  handler's promise. \<open>Throw e\<close> throws: before the first suspension of a handler that is
  not an \<^verbatim>\<open>async\<close> function this leaves \<^verbatim>\<open>handler(event)\<close> as an exception, with no
  promise returned; later it rejects the handler's promise.
\<close>

datatype hprog =
    Done settled
  | Await hprog
  | SetCookie cookie_op hprog hprog
  | Throw exn
  | Guarded cookies "cookies \<Rightarrow> hprog" hprog

type_synonym handler = "cookies \<Rightarrow> hprog"

text \<open>
  The replacement installed on the owner's event:
  \<^verbatim>\<open>ops.push([name, value, options]); originalSet(name, value, options)\<close>.
  The write is recorded before the original \<^verbatim>\<open>set\<close> is called.
\<close>

definition patched_set :: "cookie_op list \<Rightarrow> cookies \<Rightarrow> cookie_op \<Rightarrow> cookie_op list \<times> (exn + cookies)" where
  "patched_set ops0 c w = (ops0 @ [w], cookies_set c w)"

section \<open>Replay on a duplicate caller\<close>

text \<open>\<^verbatim>\<open>for (const [name, value, opts] of existing.ops) event.cookies.set(name, value, opts)\<close>:
  the loop ends at the first write for which \<^verbatim>\<open>set\<close> throws.\<close>

fun replay :: "cookie_op list \<Rightarrow> cookies \<Rightarrow> cookies \<times> exn option" where
  "replay [] c = (c, None)"
| "replay (w # ws) c =
     (case cookies_set c w of
        Inl e \<Rightarrow> (c, Some e)
      | Inr c1 \<Rightarrow> replay ws c1)"

text \<open>
  The duplicate's continuation after \<^verbatim>\<open>await existing.promise\<close>: the \<^verbatim>\<open>try\<close> block
  replays and returns the result; the \<^verbatim>\<open>catch\<close> block, entered when the promise was
  rejected or when the replay of the \<^verbatim>\<open>try\<close> block threw, replays (again) and rethrows
  what it caught.
\<close>

definition catch_block :: "exn \<Rightarrow> cookie_op list \<Rightarrow> cookies \<Rightarrow> cookies \<times> settled" where
  "catch_block err ops0 c =
     (case replay ops0 c of
        (c1, None) \<Rightarrow> (c1, Rejected err)
      | (c1, Some e) \<Rightarrow> (c1, Rejected e))"

definition after_await :: "settled \<Rightarrow> cookie_op list \<Rightarrow> cookies \<Rightarrow> cookies \<times> settled" where
  "after_await r ops0 c =
     (case r of
        Fulfilled v \<Rightarrow>
          (case replay ops0 c of
             (c1, None) \<Rightarrow> (c1, Fulfilled v)
           | (c1, Some e) \<Rightarrow> catch_block e ops0 c1)
      | Rejected err \<Rightarrow> catch_block err ops0 c)"

section \<open>The registry, the jobs and the callers\<close>

text \<open>
  \<open>running\<close> is the module-level \<^verbatim>\<open>Map\<close>; its values are references to job objects,
  here indices into \<open>jobs\<close>. A job holds the two fields of \<^verbatim>\<open>RunningJob\<close> (\<open>promise\<close>,
  \<open>None\<close> while pending, and \<open>ops\<close>), the rest of the handler's run (\<open>prog\<close>, \<open>Done r\<close>
  once the handler's own promise has settled), whether the \<^verbatim>\<open>finally\<close> callback has run
  (\<open>cleaned\<close>), and what the closures of the owner's call captured: the token (\<open>jtoken\<close>,
  used by the \<^verbatim>\<open>finally\<close> callback) and the owner's event (\<open>jowner\<close>, used by the
  replaced \<^verbatim>\<open>set\<close>).

  A caller is one call of a wrapped action. \<open>arrived\<close> is its event as it came in, \<open>ctx\<close>
  the event's cookies now. \<open>outcome\<close> is how the call's own promise settled, for a call
  that does not return the job's promise itself. \<open>invoked\<close> logs every call of
  \<^verbatim>\<open>handler(event)\<close>, by token.
\<close>

record job =
  jtoken :: token
  jowner :: nat
  ops :: "cookie_op list"
  prog :: hprog
  cleaned :: bool
  promise :: "settled option"

datatype role = NoJob | Owns nat | Joined nat

record caller =
  arrived :: cookies
  ctx :: cookies
  role :: role
  outcome :: "settled option"

record state =
  running :: "token \<rightharpoonup> nat"
  jobs :: "job list"
  callers :: "caller list"
  invoked :: "token list"

definition init :: state where
  "init = \<lparr>running = Map.empty, jobs = [], callers = [], invoked = []\<rparr>"

text \<open>
  The synchronous part of \<^verbatim>\<open>wrapped(event)\<close>: up to the first \<^verbatim>\<open>await\<close> for a
  duplicate, up to \<^verbatim>\<open>return promise\<close> for an owner. \<open>body\<close> is \<^verbatim>\<open>handler(event)\<close> up
  to the handler's first suspension, as a function of the state: it runs after the lookup
  \<^verbatim>\<open>running.get(token)\<close> and before \<^verbatim>\<open>running.set(token, ...)\<close>, which overwrites
  whatever entry the token has by then. When \<^verbatim>\<open>handler(event)\<close> throws, nothing is
  registered and the call's promise is rejected.
\<close>

definition wrapped ::
  "(state \<Rightarrow> hprog \<times> cookie_op list \<times> cookies \<times> state) \<Rightarrow> cookies \<Rightarrow> state \<Rightarrow> state" where
  "wrapped body ev s =
     (let tok = cookies_get ev COOKIE in
      if falsy tok then
        s\<lparr>callers := callers s @
            [\<lparr>arrived = ev, ctx = ev, role = NoJob,
              outcome = Some (Fulfilled (fail 400 [(''message'', ''Form token missing'')]))\<rparr>]\<rparr>
      else
        (case running s (the tok) of
           Some j \<Rightarrow>
             s\<lparr>callers := callers s @
                 [\<lparr>arrived = ev, ctx = ev, role = Joined j, outcome = None\<rparr>]\<rparr>
         | None \<Rightarrow>
             (case body (s\<lparr>invoked := invoked s @ [the tok]\<rparr>) of
                (Throw e, ops1, c1, s1) \<Rightarrow>
                  s1\<lparr>callers := callers s1 @
                      [\<lparr>arrived = ev, ctx = c1, role = NoJob, outcome = Some (Rejected e)\<rparr>]\<rparr>
              | (p, ops1, c1, s1) \<Rightarrow>
                  s1\<lparr>running := (running s1)(the tok \<mapsto> length (jobs s1)),
                     jobs := jobs s1 @
                       [\<lparr>jtoken = the tok, jowner = length (callers s1), ops = ops1,
                         prog = p, cleaned = False, promise = None\<rparr>],
                     callers := callers s1 @
                       [\<lparr>arrived = ev, ctx = c1, role = Owns (length (jobs s1)),
                         outcome = None\<rparr>]\<rparr>)))"

text \<open>
  A handler runs until it suspends or ends. Its writes go through the replaced \<^verbatim>\<open>set\<close>
  of its own event; a guarded call it makes runs, as any call does, up to that call's
  first suspension.
\<close>

primrec run_sync ::
  "hprog \<Rightarrow> cookie_op list \<Rightarrow> cookies \<Rightarrow> state \<Rightarrow> hprog \<times> cookie_op list \<times> cookies \<times> state" where
  "run_sync (Done r) ops0 c s = (Done r, ops0, c, s)"
| "run_sync (Await k) ops0 c s = (Await k, ops0, c, s)"
| "run_sync (SetCookie w k1 k2) ops0 c s =
     (case patched_set ops0 c w of
        (ops1, Inr c1) \<Rightarrow> run_sync k1 ops1 c1 s
      | (ops1, Inl e) \<Rightarrow> run_sync k2 ops1 c s)"
| "run_sync (Throw e) ops0 c s = (Throw e, ops0, c, s)"
| "run_sync (Guarded ev h k) ops0 c s =
     run_sync k ops0 c (wrapped (run_sync (h ev) [] ev) ev s)"

definition onceAction :: "handler \<Rightarrow> cookies \<Rightarrow> state \<Rightarrow> state" where
  "onceAction h ev s = wrapped (run_sync (h ev) [] ev) ev s"

text \<open>The handler of job \<open>j\<close> resumes after an \<^verbatim>\<open>await\<close> of its own; a throw now
  rejects its promise.\<close>

definition rejects :: "hprog \<Rightarrow> hprog" where
  "rejects p = (case p of Throw e \<Rightarrow> Done (Rejected e) | _ \<Rightarrow> p)"

definition continue_handler :: "nat \<Rightarrow> state \<Rightarrow> state option" where
  "continue_handler j s =
     (if j < length (jobs s) \<and> jowner (jobs s ! j) < length (callers s) then
        (case prog (jobs s ! j) of
           Await k \<Rightarrow>
             (case run_sync k (ops (jobs s ! j)) (ctx (callers s ! jowner (jobs s ! j))) s of
                (p, ops1, c1, s1) \<Rightarrow>
                  Some (s1\<lparr>jobs := (jobs s1)[j := (jobs s1 ! j)\<lparr>ops := ops1, prog := rejects p\<rparr>],
                           callers := (callers s1)[jowner (jobs s ! j) :=
                             (callers s1 ! jowner (jobs s ! j))\<lparr>ctx := c1\<rparr>]\<rparr>))
         | _ \<Rightarrow> None)
      else None)"

text \<open>
  The handler's promise has settled and the callback given to \<^verbatim>\<open>finally\<close> runs:
  \<^verbatim>\<open>running.delete(token)\<close>. The promise that \<^verbatim>\<open>finally\<close> returned, the one stored in
  the job and awaited by the duplicates, is still pending.
\<close>

definition finally_callback :: "nat \<Rightarrow> state \<Rightarrow> state option" where
  "finally_callback j s =
     (if j < length (jobs s) \<and> \<not> cleaned (jobs s ! j) then
        (case prog (jobs s ! j) of
           Done r \<Rightarrow>
             Some (s\<lparr>running := (running s)(jtoken (jobs s ! j) := None),
                     jobs := (jobs s)[j := (jobs s ! j)\<lparr>cleaned := True\<rparr>]\<rparr>)
         | _ \<Rightarrow> None)
      else None)"

text \<open>Later the stored promise takes the handler's result.\<close>

definition settle :: "nat \<Rightarrow> state \<Rightarrow> state option" where
  "settle j s =
     (if j < length (jobs s) \<and> cleaned (jobs s ! j) \<and> promise (jobs s ! j) = None then
        (case prog (jobs s ! j) of
           Done r \<Rightarrow> Some (s\<lparr>jobs := (jobs s)[j := (jobs s ! j)\<lparr>promise := Some r\<rparr>]\<rparr>)
         | _ \<Rightarrow> None)
      else None)"

text \<open>A duplicate caller resumes once the promise it awaits has settled.\<close>

definition resume :: "nat \<Rightarrow> state \<Rightarrow> state option" where
  "resume c s =
     (if c < length (callers s) \<and> outcome (callers s ! c) = None then
        (case role (callers s ! c) of
           Joined j \<Rightarrow>
             (if j < length (jobs s) then
                (case promise (jobs s ! j) of
                   Some r \<Rightarrow>
                     (case after_await r (ops (jobs s ! j)) (ctx (callers s ! c)) of
                        (c1, r1) \<Rightarrow>
                          Some (s\<lparr>callers := (callers s)[c :=
                                  (callers s ! c)\<lparr>ctx := c1, outcome := Some r1\<rparr>]\<rparr>))
                 | None \<Rightarrow> None)
              else None)
         | _ \<Rightarrow> None)
      else None)"

text \<open>
  The scheduler: JavaScript runs one piece of code at a time, from one suspension point to
  the next. \<open>Call\<close> is the arrival of a request with an event of its own; the other
  events resume the handler of a job, run the \<^verbatim>\<open>finally\<close> callback of a job, settle
  the promise stored in a job, and resume a duplicate. Any of them can come between any
  two others. An event that is not enabled in a state gives \<open>None\<close>.
\<close>

datatype event = Call cookies handler | Continue nat | Finally nat | Settle nat | Resume nat

fun step :: "event \<Rightarrow> state \<Rightarrow> state option" where
  "step (Call ev h) s = Some (onceAction h ev s)"
| "step (Continue j) s = continue_handler j s"
| "step (Finally j) s = finally_callback j s"
| "step (Settle j) s = settle j s"
| "step (Resume c) s = resume c s"

fun run :: "event list \<Rightarrow> state \<Rightarrow> state option" where
  "run [] s = Some s"
| "run (e # es) s = (case step e s of None \<Rightarrow> None | Some s1 \<Rightarrow> run es s1)"

text \<open>What a caller's promise has settled to, if it has: an owner returned the job's
  promise itself.\<close>

definition observed :: "state \<Rightarrow> nat \<Rightarrow> settled option" where
  "observed s c =
     (case role (callers s ! c) of
        Owns j \<Rightarrow> promise (jobs s ! j)
      | _ \<Rightarrow> outcome (callers s ! c))"

section \<open>Properties of states\<close>

text \<open>
  \<open>reg_ok\<close>: an entry of the registry points to a job of that token whose \<^verbatim>\<open>finally\<close>
  callback has not run. \<open>job_ok\<close>: a job has a non-empty token, and its stored promise
  settles only after its \<^verbatim>\<open>finally\<close> callback has run.
  \<open>alone t j\<close>: the registry holds job \<open>j\<close> for \<open>t\<close>, and \<open>j\<close> is the only job of \<open>t\<close> whose
  \<^verbatim>\<open>finally\<close> callback has not run. \<open>extends s0 s\<close>: \<open>s\<close> has the jobs and callers
  of \<open>s0\<close> and maybe more. \<open>window t j s0 s\<close>: since \<open>s0\<close> no handler was invoked and no job
  started for \<open>t\<close>, and \<open>j\<close> is still alone.
\<close>

definition reg_ok :: "state \<Rightarrow> bool" where
  "reg_ok s = (\<forall>t j. running s t = Some j \<longrightarrow>
      j < length (jobs s) \<and> jtoken (jobs s ! j) = t \<and> \<not> cleaned (jobs s ! j))"

definition job_ok :: "state \<Rightarrow> nat \<Rightarrow> bool" where
  "job_ok s j =
     (jtoken (jobs s ! j) \<noteq> [] \<and> (promise (jobs s ! j) \<noteq> None \<longrightarrow> cleaned (jobs s ! j)))"

definition state_ok :: "state \<Rightarrow> bool" where
  "state_ok s = (reg_ok s \<and> (\<forall>j < length (jobs s). job_ok s j))"


definition extends :: "state \<Rightarrow> state \<Rightarrow> bool" where
  "extends s0 s = ((\<exists>js. jobs s = jobs s0 @ js) \<and> (\<exists>cs. callers s = callers s0 @ cs))"







section \<open>Concrete requests and handlers\<close>

text \<open>
  A \<^verbatim>\<open>set\<close> that throws for a value of more than eight characters and returns
  otherwise (a small stand-in for a cookie jar that refuses some writes); two writes, the
  second too long; and requests that carry the token cookie.

  \<open>login\<close> writes a session cookie, waits, and redirects home (\<^verbatim>\<open>kitRedirect('/')\<close>).
  \<open>login_prefs\<close> also writes the long cookie inside a \<^verbatim>\<open>try\<close> that ignores the error,
  waits, and returns a payload; \<open>login_boom\<close> writes the long cookie the same way, waits,
  and throws. \<open>other\<close> is a different handler that returns at once. \<open>crash\<close> is a handler
  that is not \<^verbatim>\<open>async\<close> and throws. \<open>reenter\<close> calls the guarded \<open>login\<close> with the same
  token before it first suspends.

  The runs: three concurrent calls with the token \<^verbatim>\<open>abc123\<close>; then the first one's
  handler finishes, its \<^verbatim>\<open>finally\<close> callback runs, the stored promise settles, and the
  two duplicates resume. \<open>late_call\<close> has a fourth call arrive after the callback and
  before the promise settles.
\<close>

definition size_limit :: "cookie_op \<Rightarrow> exn option" where
  "size_limit w = (if 8 < length (fst (snd w)) then Some (Error ''Cookie is too large'') else None)"

definition w_sid :: cookie_op where
  "w_sid = (''sid'', ''42'', \<lparr>path = ''/'', httpOnly = True, maxAge = Some 3600\<rparr>)"

definition w_prefs :: cookie_op where
  "w_prefs = (''prefs'', ''0123456789'', \<lparr>path = ''/'', httpOnly = False, maxAge = None\<rparr>)"

definition request :: "string \<Rightarrow> cookies" where
  "request t = \<lparr>jar = [(''form_once'', t)], sent = [], throws = size_limit\<rparr>"

definition no_cookie :: cookies where
  "no_cookie = \<lparr>jar = [(''theme'', ''dark'')], sent = [], throws = size_limit\<rparr>"

definition login :: handler where
  "login ev =
     SetCookie w_sid (Await (Done (kitRedirect ''/'')))
                     (Done (Rejected (Error ''Cookie is too large'')))"

definition login_prefs :: handler where
  "login_prefs ev =
     SetCookie w_sid
       (SetCookie w_prefs (Await (Done (Fulfilled (Data ''ok''))))
                          (Await (Done (Fulfilled (Data ''ok'')))))
       (Done (Rejected (Error ''Cookie is too large'')))"

definition login_boom :: handler where
  "login_boom ev =
     SetCookie w_prefs (Await (Done (Rejected (Error ''boom''))))
                       (Await (Done (Rejected (Error ''boom''))))"

definition other :: handler where
  "other ev = Done (Fulfilled (Data ''other''))"

definition crash :: handler where
  "crash ev = Throw (Error ''not async'')"

definition reenter :: handler where
  "reenter ev = Guarded (request ''abc123'') login (Await (Done (Fulfilled (Data ''outer''))))"

definition two_calls :: "event list" where
  "two_calls = [Call (request ''abc123'') login, Call (request ''abc123'') login]"

definition three_calls :: "event list" where
  "three_calls = two_calls @ [Call (request ''abc123'') other]"

definition three_finished :: "event list" where
  "three_finished = three_calls @ [Continue 0]"

definition three_cleaned :: "event list" where
  "three_cleaned = three_finished @ [Finally 0]"

definition three_settled :: "event list" where
  "three_settled = three_cleaned @ [Settle 0]"

definition three_done :: "event list" where
  "three_done = three_settled @ [Resume 1, Resume 2]"

definition late_call :: "event list" where
  "late_call = three_cleaned @ [Call (request ''abc123'') login]"

definition prefs_settled :: "event list" where
  "prefs_settled =
     [Call (request ''abc123'') login_prefs, Call (request ''abc123'') login_prefs,
      Continue 0, Finally 0, Settle 0]"

definition prefs_run :: "event list" where
  "prefs_run = prefs_settled @ [Resume 1]"

definition boom_run :: "event list" where
  "boom_run =
     [Call (request ''abc123'') login_boom, Call (request ''abc123'') login_boom,
      Continue 0, Finally 0, Settle 0, Resume 1]"

definition other_run :: "event list" where
  "other_run =
     [Call (request ''abc123'') login_prefs, Call (request ''abc123'') other,
      Continue 0, Finally 0, Settle 0, Resume 1]"

definition final :: "event list \<Rightarrow> state" where
  "final es = (case run es init of Some s \<Rightarrow> s | None \<Rightarrow> init)"


section \<open>What a guarded call leaves unchanged\<close>

text \<open>
  A guarded call changes the state in four ways only: it adds a caller, it logs an
  invocation for a token that has no entry, it registers a fresh job, and it lets the
  handler run, which may make guarded calls in turn. A property kept by the first three is
  kept by every guarded call and by every run of a handler.
\<close>

lemma wrapped_missing:
  "falsy (cookies_get ev COOKIE) \<Longrightarrow>
   wrapped body ev s = s\<lparr>callers := callers s @
      [\<lparr>arrived = ev, ctx = ev, role = NoJob,
        outcome = Some (Fulfilled (fail 400 [(''message'', ''Form token missing'')]))\<rparr>]\<rparr>"
  by (simp add: wrapped_def Let_def)

lemma wrapped_join:
  "\<not> falsy (cookies_get ev COOKIE) \<Longrightarrow> running s (the (cookies_get ev COOKIE)) = Some j \<Longrightarrow>
   wrapped body ev s = s\<lparr>callers := callers s @
      [\<lparr>arrived = ev, ctx = ev, role = Joined j, outcome = None\<rparr>]\<rparr>"
  by (simp add: wrapped_def Let_def)

lemma wrapped_threw:
  "\<not> falsy (cookies_get ev COOKIE) \<Longrightarrow> running s (the (cookies_get ev COOKIE)) = None \<Longrightarrow>
   body (s\<lparr>invoked := invoked s @ [the (cookies_get ev COOKIE)]\<rparr>) = (Throw e, ops1, c1, s1) \<Longrightarrow>
   wrapped body ev s = s1\<lparr>callers := callers s1 @
      [\<lparr>arrived = ev, ctx = c1, role = NoJob, outcome = Some (Rejected e)\<rparr>]\<rparr>"
  by (simp add: wrapped_def Let_def)

lemma wrapped_own:
  "\<not> falsy (cookies_get ev COOKIE) \<Longrightarrow> running s (the (cookies_get ev COOKIE)) = None \<Longrightarrow>
   body (s\<lparr>invoked := invoked s @ [the (cookies_get ev COOKIE)]\<rparr>) = (p, ops1, c1, s1) \<Longrightarrow>
   \<forall>e. p \<noteq> Throw e \<Longrightarrow>
   wrapped body ev s =
     s1\<lparr>running := (running s1)(the (cookies_get ev COOKIE) \<mapsto> length (jobs s1)),
        jobs := jobs s1 @
          [\<lparr>jtoken = the (cookies_get ev COOKIE), jowner = length (callers s1), ops = ops1,
            prog = p, cleaned = False, promise = None\<rparr>],
        callers := callers s1 @
          [\<lparr>arrived = ev, ctx = c1, role = Owns (length (jobs s1)), outcome = None\<rparr>]\<rparr>"
  by (cases p) (simp_all add: wrapped_def Let_def)

lemma not_falsy: "\<not> falsy v \<Longrightarrow> the v \<noteq> []"
  by (cases v) (simp_all add: falsy_def)

lemma wrapped_keeps:
  assumes body: "\<And>s0. P s0 \<Longrightarrow> P (snd (snd (snd (body s0))))"
    and A: "\<And>s0 x. P s0 \<Longrightarrow> P (s0\<lparr>callers := callers s0 @ [x]\<rparr>)"
    and L: "\<And>s0 tok. P s0 \<Longrightarrow> tok \<noteq> [] \<Longrightarrow> running s0 tok = None \<Longrightarrow>
              Q tok \<and> P (s0\<lparr>invoked := invoked s0 @ [tok]\<rparr>)"
    and R: "\<And>s0 tok jb x. P s0 \<Longrightarrow> Q tok \<Longrightarrow> jtoken jb = tok \<Longrightarrow> \<not> cleaned jb \<Longrightarrow>
              promise jb = None \<Longrightarrow>
              P (s0\<lparr>running := (running s0)(tok \<mapsto> length (jobs s0)),
                    jobs := jobs s0 @ [jb], callers := callers s0 @ [x]\<rparr>)"
    and P: "P s"
  shows "P (wrapped body ev s)"
proof (cases "falsy (cookies_get ev COOKIE)")
  case True
  then show ?thesis using A[OF P] by (simp add: wrapped_missing)
next
  case False
  define tok where "tok = the (cookies_get ev COOKIE)"
  have tne: "tok \<noteq> []" using False by (simp add: tok_def not_falsy)
  show ?thesis
  proof (cases "running s tok")
    case (Some j)
    then show ?thesis using A[OF P] False by (simp add: wrapped_join tok_def)
  next
    case None
    from L[OF P tne None] have q: "Q tok" and pl: "P (s\<lparr>invoked := invoked s @ [tok]\<rparr>)"
      by simp_all
    obtain p ops1 c1 s1 where b: "body (s\<lparr>invoked := invoked s @ [tok]\<rparr>) = (p, ops1, c1, s1)"
      by (cases "body (s\<lparr>invoked := invoked s @ [tok]\<rparr>)") auto
    from body[OF pl] b have p1: "P s1" by simp
    show ?thesis
    proof (cases "\<exists>e. p = Throw e")
      case True
      then obtain e where "p = Throw e" by blast
      with b have "wrapped body ev s = s1\<lparr>callers := callers s1 @
          [\<lparr>arrived = ev, ctx = c1, role = NoJob, outcome = Some (Rejected e)\<rparr>]\<rparr>"
        using False None by (simp add: wrapped_threw tok_def)
      then show ?thesis using A[OF p1] by simp
    next
      case F: False
      then have "\<forall>e. p \<noteq> Throw e" by simp
      from wrapped_own[OF False _ _ this, of s body ops1 c1 s1] b None
      have "wrapped body ev s =
         s1\<lparr>running := (running s1)(tok \<mapsto> length (jobs s1)),
            jobs := jobs s1 @
              [\<lparr>jtoken = tok, jowner = length (callers s1), ops = ops1,
                prog = p, cleaned = False, promise = None\<rparr>],
            callers := callers s1 @
              [\<lparr>arrived = ev, ctx = c1, role = Owns (length (jobs s1)), outcome = None\<rparr>]\<rparr>"
        by (simp add: tok_def)
      then show ?thesis using R[OF p1 q, of _ _] by simp
    qed
  qed
qed

lemma run_sync_keeps:
  assumes A: "\<And>s0 x. P s0 \<Longrightarrow> P (s0\<lparr>callers := callers s0 @ [x]\<rparr>)"
    and L: "\<And>s0 tok. P s0 \<Longrightarrow> tok \<noteq> [] \<Longrightarrow> running s0 tok = None \<Longrightarrow>
              Q tok \<and> P (s0\<lparr>invoked := invoked s0 @ [tok]\<rparr>)"
    and R: "\<And>s0 tok jb x. P s0 \<Longrightarrow> Q tok \<Longrightarrow> jtoken jb = tok \<Longrightarrow> \<not> cleaned jb \<Longrightarrow>
              promise jb = None \<Longrightarrow>
              P (s0\<lparr>running := (running s0)(tok \<mapsto> length (jobs s0)),
                    jobs := jobs s0 @ [jb], callers := callers s0 @ [x]\<rparr>)"
  shows "P s \<Longrightarrow> P (snd (snd (snd (run_sync p ops0 c s))))"
proof (induction p arbitrary: ops0 c s)
  case (Done r)
  then show ?case by simp
next
  case (Await k)
  then show ?case by simp
next
  case (SetCookie w k1 k2)
  then show ?case by (simp add: patched_set_def split: sum.splits)
next
  case (Throw e)
  then show ?case by simp
next
  case (Guarded ev h k)
  have "P (wrapped (run_sync (h ev) [] ev) ev s)"
  proof (rule wrapped_keeps[where P = P and Q = Q])
    fix s0 assume "P s0"
    then show "P (snd (snd (snd (run_sync (h ev) [] ev s0))))"
      by (simp add: Guarded.IH(1))
  qed (fact A L R Guarded.prems)+
  then show ?case using Guarded.IH(2) by simp
qed

lemma onceAction_keeps:
  assumes A: "\<And>s0 x. P s0 \<Longrightarrow> P (s0\<lparr>callers := callers s0 @ [x]\<rparr>)"
    and L: "\<And>s0 tok. P s0 \<Longrightarrow> tok \<noteq> [] \<Longrightarrow> running s0 tok = None \<Longrightarrow>
              Q tok \<and> P (s0\<lparr>invoked := invoked s0 @ [tok]\<rparr>)"
    and R: "\<And>s0 tok jb x. P s0 \<Longrightarrow> Q tok \<Longrightarrow> jtoken jb = tok \<Longrightarrow> \<not> cleaned jb \<Longrightarrow>
              promise jb = None \<Longrightarrow>
              P (s0\<lparr>running := (running s0)(tok \<mapsto> length (jobs s0)),
                    jobs := jobs s0 @ [jb], callers := callers s0 @ [x]\<rparr>)"
    and P: "P s"
  shows "P (onceAction h ev s)"
  unfolding onceAction_def
proof (rule wrapped_keeps[where P = P and Q = Q])
  fix s0 assume p0: "P s0"
  show "P (snd (snd (snd (run_sync (h ev) [] ev s0))))"
    by (rule run_sync_keeps[where P = P and Q = Q]) (fact A L R p0)+
qed (fact A L R P)+

section \<open>The invariant is kept by every step\<close>

lemma extends_refl: "extends s s"
  by (simp add: extends_def)

lemma extends_caller: "extends s0 s \<Longrightarrow> extends s0 (s\<lparr>callers := callers s @ [x]\<rparr>)"
  by (auto simp: extends_def)

lemma extends_log: "extends s0 s \<Longrightarrow> extends s0 (s\<lparr>invoked := v\<rparr>)"
  by (simp add: extends_def)

lemma extends_register:
  "extends s0 s \<Longrightarrow>
   extends s0 (s\<lparr>running := r, jobs := jobs s @ [jb], callers := callers s @ [x]\<rparr>)"
  by (auto simp: extends_def)

lemma extends_nth:
  assumes "extends s0 s"
  shows "j < length (jobs s0) \<Longrightarrow> jobs s ! j = jobs s0 ! j \<and> j < length (jobs s)"
    and "c < length (callers s0) \<Longrightarrow> callers s ! c = callers s0 ! c \<and> c < length (callers s)"
  using assms by (auto simp: extends_def nth_append)

lemma state_ok_caller: "state_ok s \<Longrightarrow> state_ok (s\<lparr>callers := cs\<rparr>)"
  by (simp add: state_ok_def reg_ok_def job_ok_def)

lemma state_ok_log: "state_ok s \<Longrightarrow> state_ok (s\<lparr>invoked := v\<rparr>)"
  by (simp add: state_ok_def reg_ok_def job_ok_def)

lemma state_ok_register:
  assumes ok: "state_ok s" and tok: "tok \<noteq> []" and jb: "jtoken jb = tok" "\<not> cleaned jb" "promise jb = None"
  shows "state_ok (s\<lparr>running := (running s)(tok \<mapsto> length (jobs s)),
                    jobs := jobs s @ [jb], callers := cs\<rparr>)"
proof -
  let ?s = "s\<lparr>running := (running s)(tok \<mapsto> length (jobs s)), jobs := jobs s @ [jb], callers := cs\<rparr>"
  have reg: "reg_ok s" and jbs: "\<And>k. k < length (jobs s) \<Longrightarrow> job_ok s k"
    using ok by (auto simp: state_ok_def)
  have "reg_ok ?s"
    unfolding reg_ok_def
  proof (intro allI impI)
    fix u k assume "running ?s u = Some k"
    then have "(u = tok \<and> k = length (jobs s)) \<or> (u \<noteq> tok \<and> running s u = Some k)"
      by (auto split: if_splits)
    then show "k < length (jobs ?s) \<and> jtoken (jobs ?s ! k) = u \<and> \<not> cleaned (jobs ?s ! k)"
    proof
      assume "u = tok \<and> k = length (jobs s)"
      then show ?thesis using jb by simp
    next
      assume "u \<noteq> tok \<and> running s u = Some k"
      with reg have "k < length (jobs s) \<and> jtoken (jobs s ! k) = u \<and> \<not> cleaned (jobs s ! k)"
        unfolding reg_ok_def by blast
      then show ?thesis by (simp add: nth_append)
    qed
  qed
  moreover have "\<forall>k < length (jobs ?s). job_ok ?s k"
  proof (intro allI impI)
    fix k assume "k < length (jobs ?s)"
    then have "k < length (jobs s) \<or> k = length (jobs s)" by auto
    then show "job_ok ?s k"
    proof
      assume lt: "k < length (jobs s)"
      with jbs[OF lt] show ?thesis by (simp add: job_ok_def nth_append)
    next
      assume "k = length (jobs s)"
      then show ?thesis using tok jb by (simp add: job_ok_def)
    qed
  qed
  ultimately show ?thesis by (simp add: state_ok_def)
qed

lemma onceAction_ok: "state_ok s \<Longrightarrow> state_ok (onceAction h ev s)"
proof (rule onceAction_keeps[where P = state_ok and Q = "\<lambda>tok. tok \<noteq> []"])
  fix s0 :: state and tok and jb :: job and x
  assume "state_ok s0" "tok \<noteq> []" "jtoken jb = tok" "\<not> cleaned jb" "promise jb = None"
  then show "state_ok (s0\<lparr>running := (running s0)(tok \<mapsto> length (jobs s0)),
                    jobs := jobs s0 @ [jb], callers := callers s0 @ [x]\<rparr>)"
    by (rule state_ok_register)
qed (simp_all add: state_ok_caller state_ok_log)

lemma run_sync_ok:
  assumes "state_ok s"
  shows "state_ok (snd (snd (snd (run_sync p ops0 c s)))) \<and>
         extends s (snd (snd (snd (run_sync p ops0 c s))))"
proof (rule run_sync_keeps[where P = "\<lambda>s'. state_ok s' \<and> extends s s'" and Q = "\<lambda>tok. tok \<noteq> []"])
  fix s0 :: state and tok and jb :: job and x
  assume "state_ok s0 \<and> extends s s0" "tok \<noteq> []" "jtoken jb = tok" "\<not> cleaned jb" "promise jb = None"
  then show "state_ok (s0\<lparr>running := (running s0)(tok \<mapsto> length (jobs s0)),
                    jobs := jobs s0 @ [jb], callers := callers s0 @ [x]\<rparr>) \<and>
             extends s (s0\<lparr>running := (running s0)(tok \<mapsto> length (jobs s0)),
                    jobs := jobs s0 @ [jb], callers := callers s0 @ [x]\<rparr>)"
    by (simp add: state_ok_register extends_register)
qed (simp_all add: state_ok_caller state_ok_log extends_caller extends_log extends_refl assms)


lemma continue_handler_Some:
  assumes "continue_handler j s = Some s2"
  obtains k p ops1 c1 s1 where
    "j < length (jobs s)" "jowner (jobs s ! j) < length (callers s)"
    "prog (jobs s ! j) = Await k"
    "run_sync k (ops (jobs s ! j)) (ctx (callers s ! jowner (jobs s ! j))) s = (p, ops1, c1, s1)"
    "s2 = s1\<lparr>jobs := (jobs s1)[j := (jobs s1 ! j)\<lparr>ops := ops1, prog := rejects p\<rparr>],
             callers := (callers s1)[jowner (jobs s ! j) :=
               (callers s1 ! jowner (jobs s ! j))\<lparr>ctx := c1\<rparr>]\<rparr>"
  using assms
  by (auto simp: continue_handler_def split: if_splits hprog.splits prod.splits)

lemma finally_callback_Some:
  assumes "finally_callback j s = Some s1"
  obtains r where
    "j < length (jobs s)" "\<not> cleaned (jobs s ! j)" "prog (jobs s ! j) = Done r"
    "s1 = s\<lparr>running := (running s)(jtoken (jobs s ! j) := None),
            jobs := (jobs s)[j := (jobs s ! j)\<lparr>cleaned := True\<rparr>]\<rparr>"
  using assms
  by (auto simp: finally_callback_def split: if_splits hprog.splits)

lemma settle_Some:
  assumes "settle j s = Some s1"
  obtains r where
    "j < length (jobs s)" "cleaned (jobs s ! j)" "promise (jobs s ! j) = None"
    "prog (jobs s ! j) = Done r"
    "s1 = s\<lparr>jobs := (jobs s)[j := (jobs s ! j)\<lparr>promise := Some r\<rparr>]\<rparr>"
  using assms
  by (auto simp: settle_def split: if_splits hprog.splits)

lemma resume_Some:
  assumes "resume c s = Some s1"
  obtains j r c1 r1 where
    "c < length (callers s)" "outcome (callers s ! c) = None" "role (callers s ! c) = Joined j"
    "j < length (jobs s)" "promise (jobs s ! j) = Some r"
    "after_await r (ops (jobs s ! j)) (ctx (callers s ! c)) = (c1, r1)"
    "s1 = s\<lparr>callers := (callers s)[c := (callers s ! c)\<lparr>ctx := c1, outcome := Some r1\<rparr>]\<rparr>"
  using assms
  by (auto simp: resume_def split: if_splits role.splits option.splits prod.splits)

text \<open>Rewriting the writes and the rest of the run of a job changes none of the fields
  that the invariants read.\<close>

lemma progress_fields:
  "jtoken ((js[j := (js ! j)\<lparr>ops := a, prog := b\<rparr>]) ! k) = jtoken (js ! k)"
  "cleaned ((js[j := (js ! j)\<lparr>ops := a, prog := b\<rparr>]) ! k) = cleaned (js ! k)"
  "promise ((js[j := (js ! j)\<lparr>ops := a, prog := b\<rparr>]) ! k) = promise (js ! k)"
proof -
  have "js[j := (js ! j)\<lparr>ops := a, prog := b\<rparr>] ! k =
        (if k = j \<and> j < length js then (js ! j)\<lparr>ops := a, prog := b\<rparr> else js ! k)"
    by (cases "j < length js") (simp_all add: nth_list_update list_update_beyond)
  then show "jtoken ((js[j := (js ! j)\<lparr>ops := a, prog := b\<rparr>]) ! k) = jtoken (js ! k)"
    "cleaned ((js[j := (js ! j)\<lparr>ops := a, prog := b\<rparr>]) ! k) = cleaned (js ! k)"
    "promise ((js[j := (js ! j)\<lparr>ops := a, prog := b\<rparr>]) ! k) = promise (js ! k)"
    by (simp_all split: if_splits)
qed

lemma state_ok_progress:
  "state_ok s \<Longrightarrow>
   state_ok (s\<lparr>jobs := (jobs s)[j := (jobs s ! j)\<lparr>ops := a, prog := b\<rparr>], callers := cs\<rparr>)"
  by (simp add: state_ok_def reg_ok_def job_ok_def progress_fields)

lemma state_ok_continue:
  assumes ok: "state_ok s" and st: "continue_handler j s = Some s2"
  shows "state_ok s2"
proof -
  from st obtain k p ops1 c1 s1 where
    rs: "run_sync k (ops (jobs s ! j)) (ctx (callers s ! jowner (jobs s ! j))) s = (p, ops1, c1, s1)"
    and s2: "s2 = s1\<lparr>jobs := (jobs s1)[j := (jobs s1 ! j)\<lparr>ops := ops1, prog := rejects p\<rparr>],
             callers := (callers s1)[jowner (jobs s ! j) :=
               (callers s1 ! jowner (jobs s ! j))\<lparr>ctx := c1\<rparr>]\<rparr>"
    by (rule continue_handler_Some)
  from run_sync_ok[OF ok, of k "ops (jobs s ! j)" "ctx (callers s ! jowner (jobs s ! j))"] rs
  have "state_ok s1" by simp
  then show ?thesis unfolding s2 by (rule state_ok_progress)
qed

lemma state_ok_finally:
  assumes ok: "state_ok s" and st: "finally_callback j s = Some s1"
  shows "state_ok s1"
proof -
  from st obtain r where
    lt: "j < length (jobs s)"
    and s1: "s1 = s\<lparr>running := (running s)(jtoken (jobs s ! j) := None),
            jobs := (jobs s)[j := (jobs s ! j)\<lparr>cleaned := True\<rparr>]\<rparr>"
    by (rule finally_callback_Some)
  have reg: "reg_ok s" and jbs: "\<And>k. k < length (jobs s) \<Longrightarrow> job_ok s k"
    using ok by (auto simp: state_ok_def)
  have "reg_ok s1"
    unfolding reg_ok_def
  proof (intro allI impI)
    fix u k assume "running s1 u = Some k"
    then have u: "u \<noteq> jtoken (jobs s ! j)" and "running s u = Some k"
      by (auto simp: s1 split: if_splits)
    with reg have *: "k < length (jobs s) \<and> jtoken (jobs s ! k) = u \<and> \<not> cleaned (jobs s ! k)"
      unfolding reg_ok_def by blast
    with u have "k \<noteq> j" by auto
    with * lt show "k < length (jobs s1) \<and> jtoken (jobs s1 ! k) = u \<and> \<not> cleaned (jobs s1 ! k)"
      by (simp add: s1)
  qed
  moreover have "\<forall>k < length (jobs s1). job_ok s1 k"
  proof (intro allI impI)
    fix k assume "k < length (jobs s1)"
    then have "k < length (jobs s)" by (simp add: s1)
    from jbs[OF this] lt show "job_ok s1 k"
      by (cases "k = j") (simp_all add: job_ok_def s1)
  qed
  ultimately show ?thesis by (simp add: state_ok_def)
qed

lemma state_ok_settle:
  assumes ok: "state_ok s" and st: "settle j s = Some s1"
  shows "state_ok s1"
proof -
  from st obtain r where
    lt: "j < length (jobs s)" and cl: "cleaned (jobs s ! j)"
    and s1: "s1 = s\<lparr>jobs := (jobs s)[j := (jobs s ! j)\<lparr>promise := Some r\<rparr>]\<rparr>"
    by (rule settle_Some)
  have reg: "reg_ok s" and jbs: "\<And>k. k < length (jobs s) \<Longrightarrow> job_ok s k"
    using ok by (auto simp: state_ok_def)
  have "reg_ok s1"
    unfolding reg_ok_def
  proof (intro allI impI)
    fix u k assume "running s1 u = Some k"
    then have "running s u = Some k" by (simp add: s1)
    with reg have *: "k < length (jobs s) \<and> jtoken (jobs s ! k) = u \<and> \<not> cleaned (jobs s ! k)"
      unfolding reg_ok_def by blast
    with cl have "k \<noteq> j" by auto
    with * lt show "k < length (jobs s1) \<and> jtoken (jobs s1 ! k) = u \<and> \<not> cleaned (jobs s1 ! k)"
      by (simp add: s1)
  qed
  moreover have "\<forall>k < length (jobs s1). job_ok s1 k"
  proof (intro allI impI)
    fix k assume "k < length (jobs s1)"
    then have "k < length (jobs s)" by (simp add: s1)
    from jbs[OF this] lt cl show "job_ok s1 k"
      by (cases "k = j") (simp_all add: job_ok_def s1)
  qed
  ultimately show ?thesis by (simp add: state_ok_def)
qed

lemma state_ok_resume:
  assumes ok: "state_ok s" and st: "resume c s = Some s1"
  shows "state_ok s1"
  using st ok by (auto elim!: resume_Some simp: state_ok_caller)

lemma state_ok_init: "state_ok init"
  by (simp add: state_ok_def init_def reg_ok_def)

lemma state_ok_step: "state_ok s \<Longrightarrow> step e s = Some s1 \<Longrightarrow> state_ok s1"
  by (cases e)
     (auto intro: onceAction_ok state_ok_continue state_ok_finally state_ok_settle state_ok_resume)

lemma state_ok_run: "state_ok s \<Longrightarrow> run es s = Some s1 \<Longrightarrow> state_ok s1"
proof (induction es arbitrary: s)
  case Nil
  then show ?case by simp
next
  case (Cons e es)
  then show ?case by (auto split: option.splits dest: state_ok_step)
qed

section \<open>While the registry holds a job\<close>










section \<open>Runs of plain handlers\<close>












section \<open>The duplicate continuation\<close>

text \<open>
  When \<^verbatim>\<open>set\<close> accepts every recorded write, the duplicate's response receives the
  recorded writes in their order, once, and the duplicate settles as the job did. When
  \<^verbatim>\<open>set\<close> throws for a recorded write, the writes before it are applied twice for a
  fulfilled job (by the \<^verbatim>\<open>try\<close> block, then by the \<^verbatim>\<open>catch\<close> block) and once for
  a rejected job, the writes after it never, and the duplicate is rejected with what
  \<^verbatim>\<open>set\<close> threw.
\<close>

lemma replay_all:
  "\<forall>w \<in> set ws. throws c w = None \<Longrightarrow> replay ws c = (c\<lparr>sent := sent c @ ws\<rparr>, None)"
  by (induction ws arbitrary: c) (auto simp: cookies_set_def)

lemma replay_refused:
  "\<forall>w \<in> set pre. throws c w = None \<Longrightarrow> throws c w = Some e \<Longrightarrow>
     replay (pre @ w # post) c = (c\<lparr>sent := sent c @ pre\<rparr>, Some e)"
  by (induction pre arbitrary: c) (auto simp: cookies_set_def)

lemma after_await_clean:
  "\<forall>w \<in> set ws. throws c w = None \<Longrightarrow> after_await r ws c = (c\<lparr>sent := sent c @ ws\<rparr>, r)"
  by (cases r) (simp_all add: after_await_def catch_block_def replay_all)

lemma after_await_refused:
  assumes "\<forall>p \<in> set pre. throws c p = None" "throws c w = Some e"
  shows "after_await (Fulfilled v) (pre @ w # post) c = (c\<lparr>sent := sent c @ pre @ pre\<rparr>, Rejected e)"
    and "after_await (Rejected err) (pre @ w # post) c = (c\<lparr>sent := sent c @ pre\<rparr>, Rejected e)"
proof -
  have r1: "replay (pre @ w # post) c = (c\<lparr>sent := sent c @ pre\<rparr>, Some e)"
    using assms by (rule replay_refused)
  have r2: "replay (pre @ w # post) (c\<lparr>sent := sent c @ pre\<rparr>) =
          (c\<lparr>sent := sent c @ pre @ pre\<rparr>, Some e)"
    using replay_refused[of pre "c\<lparr>sent := sent c @ pre\<rparr>" w e post] assms by simp
  show "after_await (Fulfilled v) (pre @ w # post) c = (c\<lparr>sent := sent c @ pre @ pre\<rparr>, Rejected e)"
    using r1 r2 by (simp add: after_await_def catch_block_def)
  show "after_await (Rejected err) (pre @ w # post) c = (c\<lparr>sent := sent c @ pre\<rparr>, Rejected e)"
    using r1 by (simp add: after_await_def catch_block_def)
qed


section \<open>The concrete runs, evaluated\<close>

lemmas demo_defs = size_limit_def w_sid_def w_prefs_def request_def no_cookie_def login_def
  login_prefs_def login_boom_def other_def crash_def reenter_def two_calls_def three_calls_def
  three_finished_def three_cleaned_def three_settled_def three_done_def late_call_def
  prefs_settled_def prefs_run_def boom_run_def other_run_def final_def kitRedirect_def redirect_def

lemmas model_defs = init_def onceAction_def wrapped_def continue_handler_def finally_callback_def
  settle_def resume_def rejects_def observed_def after_await_def catch_block_def cookies_set_def
  cookies_get_def patched_set_def falsy_def COOKIE_def fail_def

lemma three_calls_facts:
  "run three_calls init = Some (final three_calls)"
  "length (callers (final three_calls)) = 3"
  "length (jobs (final three_calls)) = 1"
  "running (final three_calls) ''abc123'' = Some 0"
  "invoked (final three_calls) = [''abc123'']"
  "promise (jobs (final three_calls) ! 0) = None"
  "cleaned (jobs (final three_calls) ! 0) = False"
  "jtoken (jobs (final three_calls) ! 0) = ''abc123''"
  "role (callers (final three_calls) ! 1) = Joined 0"
  "role (callers (final three_calls) ! 2) = Joined 0"
  by (simp_all add: demo_defs model_defs)




lemma three_done_facts:
  "run three_done init = Some (final three_done)"
  "length (callers (final three_done)) = 3"
  "length (jobs (final three_done)) = 1"
  "observed (final three_done) 0 = Some (Rejected (Redirect 303 ''/''))"
  "observed (final three_done) 1 = Some (Rejected (Redirect 303 ''/''))"
  "observed (final three_done) 2 = Some (Rejected (Redirect 303 ''/''))"
  "sent (ctx (callers (final three_done) ! 1)) = [w_sid]"
  "invoked (final three_done) = [''abc123'']"
  "running (final three_done) ''abc123'' = None"
  "promise (jobs (final three_done) ! 0) = Some (Rejected (Redirect 303 ''/''))"
  "jtoken (jobs (final three_done) ! 0) = ''abc123''"
  by (simp_all add: demo_defs model_defs)

lemma prefs_run_facts:
  "run prefs_run init = Some (final prefs_run)"
  "length (callers (final prefs_run)) = 2"
  "role (callers (final prefs_run) ! 0) = Owns 0"
  "role (callers (final prefs_run) ! 1) = Joined 0"
  "observed (final prefs_run) 0 = Some (Fulfilled (Data ''ok''))"
  "observed (final prefs_run) 1 = Some (Rejected (Error ''Cookie is too large''))"
  "outcome (callers (final prefs_run) ! 1) = Some (Rejected (Error ''Cookie is too large''))"
  "ops (jobs (final prefs_run) ! 0) = [w_sid, w_prefs]"
  "sent (ctx (callers (final prefs_run) ! 0)) = [w_sid]"
  "sent (ctx (callers (final prefs_run) ! 1)) = [w_sid, w_sid]"
  "invoked (final prefs_run) = [''abc123'']"
  by (simp_all add: demo_defs model_defs)

lemma prefs_settled_facts:
  "length (callers (final prefs_settled)) = 2"
  "length (jobs (final prefs_settled)) = 1"
  "role (callers (final prefs_settled) ! 1) = Joined 0"
  "outcome (callers (final prefs_settled) ! 1) = None"
  "promise (jobs (final prefs_settled) ! 0) = Some (Fulfilled (Data ''ok''))"
  "ops (jobs (final prefs_settled) ! 0) = [w_sid, w_prefs]"
  "throws (ctx (callers (final prefs_settled) ! 1)) = size_limit"
  "sent (ctx (callers (final prefs_settled) ! 1)) = []"
  "resume 1 (final prefs_settled) = Some (final prefs_run)"
  by (simp_all add: demo_defs model_defs)

lemma boom_run_facts:
  "run boom_run init = Some (final boom_run)"
  "role (callers (final boom_run) ! 0) = Owns 0"
  "role (callers (final boom_run) ! 1) = Joined 0"
  "prog (jobs (final boom_run) ! 0) = Done (Rejected (Error ''boom''))"
  "observed (final boom_run) 0 = Some (Rejected (Error ''boom''))"
  "observed (final boom_run) 1 = Some (Rejected (Error ''Cookie is too large''))"
  "running (final boom_run) ''abc123'' = None"
  by (simp_all add: demo_defs model_defs)

lemma other_run_facts:
  "run other_run init = Some (final other_run)"
  "role (callers (final other_run) ! 0) = Owns 0"
  "role (callers (final other_run) ! 1) = Joined 0"
  "promise (jobs (final other_run) ! 0) = Some (Fulfilled (Data ''ok''))"
  "observed (final other_run) 0 = Some (Fulfilled (Data ''ok''))"
  "observed (final other_run) 1 = Some (Rejected (Error ''Cookie is too large''))"
  "invoked (final other_run) = [''abc123'']"
  "length (jobs (final other_run)) = 1"
  by (simp_all add: demo_defs model_defs)

lemma size_limit_facts:
  "size_limit w_sid = None" "size_limit w_prefs = Some (Error ''Cookie is too large'')"
  by (simp_all add: size_limit_def w_sid_def w_prefs_def)

lemma reenter_facts:
  "invoked (final [Call (request ''abc123'') reenter]) = [''abc123'', ''abc123'']"
  "map jtoken (jobs (final [Call (request ''abc123'') reenter])) = [''abc123'', ''abc123'']"
  "running (final [Call (request ''abc123'') reenter]) ''abc123'' = Some 1"
  "cleaned (jobs (final [Call (request ''abc123'') reenter]) ! 0) = False"
  "promise (jobs (final [Call (request ''abc123'') reenter]) ! 0) = None"
  by (simp_all add: demo_defs model_defs)

lemma crash_facts:
  "invoked (final [Call (request ''abc123'') crash, Call (request ''abc123'') crash]) =
     [''abc123'', ''abc123'']"
  "jobs (final [Call (request ''abc123'') crash, Call (request ''abc123'') crash]) = []"
  "observed (final [Call (request ''abc123'') crash, Call (request ''abc123'') crash]) 0 =
     Some (Rejected (Error ''not async''))"
  by (simp_all add: demo_defs model_defs)

section \<open>Single execution\<close>






text \<open>
  The two conditions on the first handler are needed as well. A handler that calls a
  guarded action with its own token before it first suspends runs before
  \<^verbatim>\<open>running.set\<close>: two handlers are invoked and two jobs started by one request. A
  handler that throws instead of returning a promise registers nothing, so every
  concurrent call runs it again.
\<close>

lemma reentrant_handler:
  "count_list (invoked (final [Call (request ''abc123'') reenter])) ''abc123'' = 2 \<and>
   map jtoken (jobs (final [Call (request ''abc123'') reenter])) = [''abc123'', ''abc123''] \<and>
   running (final [Call (request ''abc123'') reenter]) ''abc123'' = Some 1 \<and>
   promise (jobs (final [Call (request ''abc123'') reenter]) ! 0) = None"
  using reenter_facts by simp

lemma throwing_handler:
  "count_list (invoked (final [Call (request ''abc123'') crash, Call (request ''abc123'') crash]))
     ''abc123'' = 2 \<and>
   jobs (final [Call (request ''abc123'') crash, Call (request ''abc123'') crash]) = []"
  using crash_facts by simp

section \<open>Identical result\<close>

text \<open>
  C2. The code does not deliver it at \<open>prefs_run\<close>: the handler writes a cookie that
  \<^verbatim>\<open>set\<close> refuses and ignores the error; the write is recorded all the same. The owner
  observes the payload; the duplicate, sharing the same job, observes the error thrown by
  \<^verbatim>\<open>set\<close> during its replay.
\<close>

theorem duplicate_outcome_differs:
  "run prefs_run init = Some (final prefs_run) \<and>
   role (callers (final prefs_run) ! 0) = Owns 0 \<and>
   role (callers (final prefs_run) ! 1) = Joined 0 \<and>
   observed (final prefs_run) 0 = Some (Fulfilled (Data ''ok'')) \<and>
   observed (final prefs_run) 1 = Some (Rejected (Error ''Cookie is too large''))"
  using prefs_run_facts by simp

section \<open>Error fan-out\<close>

text \<open>
  C3. The code does not deliver it at \<open>boom_run\<close>: the handler throws \<^verbatim>\<open>boom\<close> after a
  refused write. The owner is rejected with \<^verbatim>\<open>boom\<close>; in the duplicate the replay of the
  \<^verbatim>\<open>catch\<close> block throws before \<^verbatim>\<open>throw err\<close> is reached, and the duplicate is rejected
  with the cookie error. The registry has no entry for the token afterwards.
\<close>

theorem duplicate_error_differs:
  "run boom_run init = Some (final boom_run) \<and>
   role (callers (final boom_run) ! 0) = Owns 0 \<and>
   role (callers (final boom_run) ! 1) = Joined 0 \<and>
   prog (jobs (final boom_run) ! 0) = Done (Rejected (Error ''boom'')) \<and>
   observed (final boom_run) 0 = Some (Rejected (Error ''boom'')) \<and>
   observed (final boom_run) 1 = Some (Rejected (Error ''Cookie is too large'')) \<and>
   running (final boom_run) ''abc123'' = None"
  using boom_run_facts by simp

section \<open>Side-effect replay\<close>

text \<open>
  C4. The code does not deliver it at \<open>prefs_run\<close>: the handler issued \<open>w_sid\<close> then
  \<open>w_prefs\<close>, and both are recorded. The duplicate's response has received \<open>w_sid\<close> twice,
  once from the loop of the \<^verbatim>\<open>try\<close> block and once from the loop of the \<^verbatim>\<open>catch\<close> block,
  and \<open>w_prefs\<close> never. The owner's response has received \<open>w_sid\<close> once.
\<close>

theorem duplicate_writes_repeated:
  "run prefs_run init = Some (final prefs_run) \<and>
   role (callers (final prefs_run) ! 1) = Joined 0 \<and>
   ops (jobs (final prefs_run) ! 0) = [w_sid, w_prefs] \<and>
   sent (ctx (callers (final prefs_run) ! 0)) = [w_sid] \<and>
   sent (ctx (callers (final prefs_run) ! 1)) = [w_sid, w_sid]"
  using prefs_run_facts by simp

section \<open>Missing token\<close>

text \<open>
  C5. When the event has no \<^verbatim>\<open>form_once\<close> cookie, the guarded call gives, in every
  state of the registry and for every handler, \<^verbatim>\<open>fail(400, {message: 'Form token missing'})\<close>;
  the new state is the old one with that caller added, so the registry, the jobs and the
  log of handler invocations are as they were.
\<close>

theorem missing_token:
  assumes "cookies_get ev COOKIE = None"
  shows "step (Call ev h) s =
           Some (s\<lparr>callers := callers s @
              [\<lparr>arrived = ev, ctx = ev, role = NoJob,
                outcome = Some (Fulfilled (fail 400 [(''message'', ''Form token missing'')]))\<rparr>]\<rparr>) \<and>
         observed (onceAction h ev s) (length (callers s)) =
           Some (Fulfilled (ActionFailure 400 [(''message'', ''Form token missing'')])) \<and>
         running (onceAction h ev s) = running s \<and>
         jobs (onceAction h ev s) = jobs s \<and>
         invoked (onceAction h ev s) = invoked s"
proof -
  have "falsy (cookies_get ev COOKIE)" using assms by (simp add: falsy_def)
  then show ?thesis by (simp add: onceAction_def wrapped_missing observed_def fail_def)
qed

theorem missing_token_witness:
  "observed (onceAction login no_cookie (final three_calls)) 3 =
     Some (Fulfilled (ActionFailure 400 [(''message'', ''Form token missing'')])) \<and>
   running (onceAction login no_cookie (final three_calls)) ''abc123'' = Some 0 \<and>
   invoked (onceAction login no_cookie (final three_calls)) = [''abc123'']"
proof -
  have "cookies_get no_cookie COOKIE = None"
    by (simp add: cookies_get_def no_cookie_def COOKIE_def)
  from missing_token[OF this, of login "final three_calls", THEN conjunct2] three_calls_facts
  show ?thesis by simp
qed

section \<open>Registry invariant\<close>






section \<open>Post-settlement independence\<close>

text \<open>
  C7, as the code has it. In a reachable state where every job started for a token \<open>t\<close>
  has settled, at whatever time after the settlement, the registry has no entry for \<open>t\<close>,
  and a guarded call presenting \<open>t\<close> runs its handler. When the handler returns a promise,
  the call registers a fresh pending job that holds what the handler did up to its first
  suspension; when the handler throws instead, the call is rejected and no job is created.
\<close>

theorem post_settlement:
  assumes reach: "run es init = Some s"
    and tok: "cookies_get ev COOKIE = Some t"
    and was: "j < length (jobs s)" "jtoken (jobs s ! j) = t"
    and settled: "\<forall>k < length (jobs s). jtoken (jobs s ! k) = t \<longrightarrow> promise (jobs s ! k) \<noteq> None"
    and start: "run_sync (h ev) [] ev (s\<lparr>invoked := invoked s @ [t]\<rparr>) = (p, ops1, c1, s1)"
  shows "running s t = None \<and>
         ((\<forall>e. p \<noteq> Throw e) \<longrightarrow>
            onceAction h ev s =
              s1\<lparr>running := (running s1)(t \<mapsto> length (jobs s1)),
                 jobs := jobs s1 @
                   [\<lparr>jtoken = t, jowner = length (callers s1), ops = ops1, prog = p,
                     cleaned = False, promise = None\<rparr>],
                 callers := callers s1 @
                   [\<lparr>arrived = ev, ctx = c1, role = Owns (length (jobs s1)), outcome = None\<rparr>]\<rparr>) \<and>
         (\<forall>e. p = Throw e \<longrightarrow>
            onceAction h ev s =
              s1\<lparr>callers := callers s1 @
                   [\<lparr>arrived = ev, ctx = c1, role = NoJob, outcome = Some (Rejected e)\<rparr>]\<rparr>)"
proof -
  have ok: "state_ok s" using state_ok_init reach by (rule state_ok_run)
  then have jbs: "\<And>k. k < length (jobs s) \<Longrightarrow> job_ok s k" by (simp add: state_ok_def)
  have none: "running s t = None"
  proof (cases "running s t")
    case (Some k)
    with ok have *: "k < length (jobs s) \<and> jtoken (jobs s ! k) = t \<and> \<not> cleaned (jobs s ! k)"
      unfolding state_ok_def reg_ok_def by blast
    with settled have "promise (jobs s ! k) \<noteq> None" by blast
    with jbs[of k] * show ?thesis by (simp add: job_ok_def)
  qed simp
  have tne: "t \<noteq> []" using jbs[OF was(1)] was(2) by (simp add: job_ok_def)
  have nf: "\<not> falsy (cookies_get ev COOKIE)" using tok tne by (simp add: falsy_def)
  have none': "running s (the (cookies_get ev COOKIE)) = None" using none tok by simp
  have start': "run_sync (h ev) [] ev (s\<lparr>invoked := invoked s @ [the (cookies_get ev COOKIE)]\<rparr>) =
      (p, ops1, c1, s1)" using start tok by simp
  have a: "(\<forall>e. p \<noteq> Throw e) \<longrightarrow>
            onceAction h ev s =
              s1\<lparr>running := (running s1)(t \<mapsto> length (jobs s1)),
                 jobs := jobs s1 @
                   [\<lparr>jtoken = t, jowner = length (callers s1), ops = ops1, prog = p,
                     cleaned = False, promise = None\<rparr>],
                 callers := callers s1 @
                   [\<lparr>arrived = ev, ctx = c1, role = Owns (length (jobs s1)), outcome = None\<rparr>]\<rparr>"
  proof
    assume nt: "\<forall>e. p \<noteq> Throw e"
    from wrapped_own[where body = "run_sync (h ev) [] ev" and ev = ev and s = s,
        OF nf none' start' nt] tok
    show "onceAction h ev s =
              s1\<lparr>running := (running s1)(t \<mapsto> length (jobs s1)),
                 jobs := jobs s1 @
                   [\<lparr>jtoken = t, jowner = length (callers s1), ops = ops1, prog = p,
                     cleaned = False, promise = None\<rparr>],
                 callers := callers s1 @
                   [\<lparr>arrived = ev, ctx = c1, role = Owns (length (jobs s1)), outcome = None\<rparr>]\<rparr>"
      by (simp add: onceAction_def)
  qed
  have b: "\<forall>e. p = Throw e \<longrightarrow>
            onceAction h ev s =
              s1\<lparr>callers := callers s1 @
                   [\<lparr>arrived = ev, ctx = c1, role = NoJob, outcome = Some (Rejected e)\<rparr>]\<rparr>"
  proof (intro allI impI)
    fix e assume "p = Throw e"
    with start' have "run_sync (h ev) [] ev (s\<lparr>invoked := invoked s @ [the (cookies_get ev COOKIE)]\<rparr>) =
      (Throw e, ops1, c1, s1)" by simp
    from wrapped_threw[where body = "run_sync (h ev) [] ev" and ev = ev and s = s, OF nf none' this]
    show "onceAction h ev s =
              s1\<lparr>callers := callers s1 @
                   [\<lparr>arrived = ev, ctx = c1, role = NoJob, outcome = Some (Rejected e)\<rparr>]\<rparr>"
      by (simp add: onceAction_def)
  qed
  show ?thesis by (intro conjI none a b)
qed


theorem post_settlement_witness:
  "running (final three_done) ''abc123'' = None \<and>
   running (onceAction login (request ''abc123'') (final three_done)) ''abc123'' = Some 1 \<and>
   invoked (onceAction login (request ''abc123'') (final three_done)) = [''abc123'', ''abc123''] \<and>
   ops (jobs (onceAction login (request ''abc123'') (final three_done)) ! 1) = [w_sid] \<and>
   prog (jobs (onceAction login (request ''abc123'') (final three_done)) ! 1) =
     Await (Done (kitRedirect ''/''))"
proof -
  have 2: "cookies_get (request ''abc123'') COOKIE = Some ''abc123''"
    by (simp add: cookies_get_def request_def COOKIE_def)
  have 3: "0 < length (jobs (final three_done))" "jtoken (jobs (final three_done) ! 0) = ''abc123''"
    using three_done_facts by simp_all
  have 4: "\<forall>k < length (jobs (final three_done)).
      jtoken (jobs (final three_done) ! k) = ''abc123'' \<longrightarrow> promise (jobs (final three_done) ! k) \<noteq> None"
    using three_done_facts by simp
  have 5: "run_sync (login (request ''abc123'')) [] (request ''abc123'')
             ((final three_done)\<lparr>invoked := invoked (final three_done) @ [''abc123'']\<rparr>) =
           (Await (Done (kitRedirect ''/'')), [w_sid], (request ''abc123'')\<lparr>sent := [w_sid]\<rparr>,
            (final three_done)\<lparr>invoked := invoked (final three_done) @ [''abc123'']\<rparr>)"
    by (simp add: login_def patched_set_def cookies_set_def request_def size_limit_facts)
  from post_settlement[where h = login and ev = "request ''abc123''", OF three_done_facts(1) 2 3 4 5]
  have "running (final three_done) ''abc123'' = None"
    and "onceAction login (request ''abc123'') (final three_done) =
       (final three_done)\<lparr>invoked := invoked (final three_done) @ [''abc123''],
          running := (running (final three_done))(''abc123'' \<mapsto> length (jobs (final three_done))),
          jobs := jobs (final three_done) @
            [\<lparr>jtoken = ''abc123'', jowner = length (callers (final three_done)), ops = [w_sid],
              prog = Await (Done (kitRedirect ''/'')), cleaned = False, promise = None\<rparr>],
          callers := callers (final three_done) @
            [\<lparr>arrived = request ''abc123'', ctx = (request ''abc123'')\<lparr>sent := [w_sid]\<rparr>,
              role = Owns (length (jobs (final three_done))), outcome = None\<rparr>]\<rparr>"
    by simp_all
  then show ?thesis using three_done_facts by (simp add: nth_append)
qed


lemma crash_after_facts:
  "invoked (onceAction crash (request ''abc123'') (final three_done)) = [''abc123'', ''abc123'']"
  "length (jobs (onceAction crash (request ''abc123'') (final three_done))) = 1"
  "running (onceAction crash (request ''abc123'') (final three_done)) ''abc123'' = None"
  "observed (onceAction crash (request ''abc123'') (final three_done)) 3 =
     Some (Rejected (Error ''not async''))"
  by (simp_all add: demo_defs model_defs)

text \<open>
  C7 as stated fails for a handler that throws instead of returning a promise: after the
  job has settled and the duplicates have resumed, the call runs the handler and is
  rejected, and no job is created.
\<close>

theorem post_settlement_counterexample:
  "run three_done init = Some (final three_done) \<and>
   promise (jobs (final three_done) ! 0) = Some (Rejected (Redirect 303 ''/'')) \<and>
   running (final three_done) ''abc123'' = None \<and>
   invoked (onceAction crash (request ''abc123'') (final three_done)) = [''abc123'', ''abc123''] \<and>
   length (jobs (onceAction crash (request ''abc123'') (final three_done))) = 1 \<and>
   running (onceAction crash (request ''abc123'') (final three_done)) ''abc123'' = None \<and>
   observed (onceAction crash (request ''abc123'') (final three_done)) 3 =
     Some (Rejected (Error ''not async''))"
  using three_done_facts crash_after_facts by simp

section \<open>Replay and refused writes\<close>

text \<open>
  C8. The code does not deliver it at \<open>prefs_run\<close>: the job is fulfilled and the
  duplicate's \<^verbatim>\<open>set\<close> throws for the second recorded write. Nothing is skipped: the
  loop of the \<^verbatim>\<open>try\<close> block stops at that write with the error raised, the loop of
  the \<^verbatim>\<open>catch\<close> block applies the first write again and stops at the same place, and
  the duplicate's call is rejected with the cookie error.
\<close>

theorem replay_not_skipped:
  "promise (jobs (final prefs_settled) ! 0) = Some (Fulfilled (Data ''ok'')) \<and>
   ops (jobs (final prefs_settled) ! 0) = [w_sid, w_prefs] \<and>
   throws (ctx (callers (final prefs_settled) ! 1)) w_prefs = Some (Error ''Cookie is too large'') \<and>
   snd (replay [w_sid, w_prefs] (request ''abc123'')) = Some (Error ''Cookie is too large'') \<and>
   sent (fst (replay [w_sid, w_prefs] (request ''abc123''))) = [w_sid] \<and>
   resume 1 (final prefs_settled) = Some (final prefs_run) \<and>
   sent (ctx (callers (final prefs_run) ! 1)) = [w_sid, w_sid] \<and>
   outcome (callers (final prefs_run) ! 1) = Some (Rejected (Error ''Cookie is too large''))"
proof -
  have "replay [w_sid, w_prefs] (request ''abc123'') =
          ((request ''abc123'')\<lparr>sent := [w_sid]\<rparr>, Some (Error ''Cookie is too large''))"
    by (simp add: cookies_set_def request_def size_limit_facts)
  then show ?thesis
    using prefs_settled_facts prefs_run_facts size_limit_facts by simp
qed

section \<open>Empty token\<close>

text \<open>
  C9. A \<^verbatim>\<open>form_once\<close> cookie whose value is the empty string is falsy under \<^verbatim>\<open>!token\<close>:
  the call behaves as the call without the cookie does.
\<close>

theorem empty_token:
  assumes "cookies_get ev COOKIE = Some []"
  shows "step (Call ev h) s =
           Some (s\<lparr>callers := callers s @
              [\<lparr>arrived = ev, ctx = ev, role = NoJob,
                outcome = Some (Fulfilled (fail 400 [(''message'', ''Form token missing'')]))\<rparr>]\<rparr>) \<and>
         observed (onceAction h ev s) (length (callers s)) =
           Some (Fulfilled (ActionFailure 400 [(''message'', ''Form token missing'')])) \<and>
         running (onceAction h ev s) = running s \<and>
         jobs (onceAction h ev s) = jobs s \<and>
         invoked (onceAction h ev s) = invoked s"
proof -
  have "falsy (cookies_get ev COOKIE)" using assms by (simp add: falsy_def)
  then show ?thesis by (simp add: onceAction_def wrapped_missing observed_def fail_def)
qed

theorem empty_token_witness:
  "observed (onceAction login (request []) (final three_calls)) 3 =
     Some (Fulfilled (ActionFailure 400 [(''message'', ''Form token missing'')])) \<and>
   running (onceAction login (request []) (final three_calls)) [] = None \<and>
   length (jobs (onceAction login (request []) (final three_calls))) = 1 \<and>
   invoked (onceAction login (request []) (final three_calls)) = [''abc123'']"
proof -
  have "cookies_get (request []) COOKIE = Some []"
    by (simp add: cookies_get_def request_def COOKIE_def)
  from empty_token[OF this, of login "final three_calls", THEN conjunct2] three_calls_facts
  have "observed (onceAction login (request []) (final three_calls)) 3 =
          Some (Fulfilled (ActionFailure 400 [(''message'', ''Form token missing'')])) \<and>
        running (onceAction login (request []) (final three_calls)) = running (final three_calls) \<and>
        length (jobs (onceAction login (request []) (final three_calls))) = 1 \<and>
        invoked (onceAction login (request []) (final three_calls)) = [''abc123'']"
    by simp
  moreover have "running (final three_calls) [] = None"
    by (simp add: demo_defs model_defs)
  ultimately show ?thesis by simp
qed

section \<open>One registry for all handlers\<close>

text \<open>
  C10. The join holds: at \<open>other_run\<close> the call of the guarded \<open>other\<close> joins the job that
  \<open>login_prefs\<close> started, and \<open>other\<close> is never invoked. The code does not deliver the
  outcome: the job is fulfilled with the payload of \<open>login_prefs\<close>, and the caller of
  \<open>other\<close> is rejected with the cookie error thrown during its replay.
\<close>

theorem other_handler_outcome_differs:
  "run other_run init = Some (final other_run) \<and>
   role (callers (final other_run) ! 1) = Joined 0 \<and>
   length (jobs (final other_run)) = 1 \<and>
   invoked (final other_run) = [''abc123''] \<and>
   promise (jobs (final other_run) ! 0) = Some (Fulfilled (Data ''ok'')) \<and>
   observed (final other_run) 0 = Some (Fulfilled (Data ''ok'')) \<and>
   observed (final other_run) 1 = Some (Rejected (Error ''Cookie is too large''))"
  using other_run_facts by simp

end
